theory Spec2Isabelle
  imports Main
begin

section \<open>The messages page of the chat client\<close>

text \<open>
  A shallow embedding of \<^verbatim>\<open>src/pages/messages/messages.ts\<close>, the component
  \<^verbatim>\<open>MessagesPage\<close>. The component is event driven: every method and every callback
  it registers is a function from the state before to the state after. The state holds
  the fields of the class, the two properties of the scroller element the code reads and
  writes, and what the code has handed to its collaborators: the log of remote requests,
  the requests still waiting for their callback, the scroll listener and the autorun
  computations created so far.
\<close>

subsection \<open>Data\<close>

text \<open>The models \<^verbatim>\<open>Chat\<close> and \<^verbatim>\<open>Message\<close> of \<^verbatim>\<open>api/models\<close>. A \<^verbatim>\<open>Date\<close>
  is its number of milliseconds since the epoch. The field \<^verbatim>\<open>ownership\<close> is optional
  and absent in the stored document.\<close>

record Chat =
  chat_id :: string
  chat_title :: string
  chat_picture :: string

record Message =
  message_id :: string
  chatId :: string
  message_senderId :: string
  content :: string
  createdAt :: int
  ownership :: "string option"
  message_type :: string

text \<open>One element of the array returned by \<^verbatim>\<open>findMessagesDayGroups\<close>.\<close>

record DayGroup =
  timestamp :: string
  messages :: "Message list"
  today :: bool

text \<open>A request to the data layer: \<^verbatim>\<open>MeteorObservable.call(name, ...args)\<close> or
  \<^verbatim>\<open>MeteorObservable.subscribe(name, ...args)\<close>, with the arguments as passed.\<close>

datatype arg = Str string | Num nat

datatype request = Call string "arg list" | Subscribe string "arg list"

text \<open>The scroll listener installed in the callback of \<^verbatim>\<open>countMessages\<close>: absent
  until the count arrives, then listening with the count captured by the closure, then
  removed for good once \<^verbatim>\<open>takeUntil\<close> has fired.\<close>

datatype listener = NotListening | Listening int | ListenerRemoved

text \<open>
  The fields of \<^verbatim>\<open>MessagesPage\<close> under their own names, then the environment.
  \<^verbatim>\<open>loadingMessages\<close> is declared without a value; the code only tests its truth, so
  \<^verbatim>\<open>undefined\<close> is \<open>False\<close>. \<^verbatim>\<open>messagesComputation\<close> is the handle of the autorun
  computation, \<open>None\<close> while undefined. \<open>scrollTop\<close> and \<open>scrollHeight\<close> are the
  properties of \<^verbatim>\<open>this.scroller\<close>.
\<close>

record MessagesPage =
  loadingMessages :: bool
  message :: string
  messagesBatchCounter :: nat
  messagesComputation :: "nat option"
  picture :: string
  scrollOffset :: int
  selectedChat :: Chat
  senderId :: string
  title :: string
  scrollTop :: int
  scrollHeight :: int
  scrollListener :: listener
  requests :: "request list"
  pendingSubscriptions :: nat
  pendingCountMessages :: nat
  pendingAddMessage :: nat
  autoruns :: nat

subsection \<open>The methods of the component\<close>

text \<open>The constructor: the chat comes from the navigation parameters, the sender id
  from \<^verbatim>\<open>Meteor.userId()\<close>; the element is given by the height of its scroller.\<close>

definition constructor :: "Chat \<Rightarrow> string \<Rightarrow> int \<Rightarrow> MessagesPage" where
  "constructor chat userId height =
     \<lparr> loadingMessages = False, message = [], messagesBatchCounter = 0,
       messagesComputation = None, picture = chat_picture chat, scrollOffset = 0,
       selectedChat = chat, senderId = userId, title = chat_title chat,
       scrollTop = 0, scrollHeight = height, scrollListener = NotListening,
       requests = [], pendingSubscriptions = 0, pendingCountMessages = 0,
       pendingAddMessage = 0, autoruns = 0 \<rparr>"

text \<open>\<^verbatim>\<open>subscribeMessages\<close>: raise the flag, save the scroll height, increment the batch
  counter and subscribe with the incremented value.\<close>

definition subscribeMessages :: "MessagesPage \<Rightarrow> MessagesPage" where
  "subscribeMessages p =
     p \<lparr> loadingMessages := True,
         scrollOffset := scrollHeight p,
         messagesBatchCounter := messagesBatchCounter p + 1,
         requests := requests p @
           [Subscribe ''messages'' [Str (chat_id (selectedChat p)), Num (messagesBatchCounter p + 1)]],
         pendingSubscriptions := pendingSubscriptions p + 1 \<rparr>"

text \<open>\<^verbatim>\<open>autorunMessages\<close> starts a new autorun computation and returns its handle.\<close>

definition autorunMessages :: "MessagesPage \<Rightarrow> nat \<times> MessagesPage" where
  "autorunMessages p = (autoruns p, p \<lparr> autoruns := autoruns p + 1 \<rparr>)"

text \<open>The callback of the subscription (lines 133 to 138), run when it is ready.\<close>

definition subscriptionReady :: "MessagesPage \<Rightarrow> MessagesPage" where
  "subscriptionReady p =
     (let p1 = (case messagesComputation p of
                  None \<Rightarrow> (let (h, p') = autorunMessages p in p' \<lparr> messagesComputation := Some h \<rparr>)
                | Some h \<Rightarrow> p)
      in p1 \<lparr> loadingMessages := False \<rparr>)"

text \<open>\<^verbatim>\<open>ngOnInit\<close>: the mutation observer is connected (it stays so until
  \<^verbatim>\<open>ngOnDestroy\<close>), the first page is subscribed and \<^verbatim>\<open>countMessages\<close> is called.\<close>

definition ngOnInit :: "MessagesPage \<Rightarrow> MessagesPage" where
  "ngOnInit p =
     (let p1 = subscribeMessages p
      in p1 \<lparr> requests := requests p1 @ [Call ''countMessages'' []],
              pendingCountMessages := pendingCountMessages p1 + 1 \<rparr>)"

text \<open>The callback of \<^verbatim>\<open>countMessages\<close> (lines 71 to 83) builds the chain of the scroll
  events and subscribes to it with \<^verbatim>\<open>forEach\<close>.\<close>

definition countMessagesResult :: "int \<Rightarrow> MessagesPage \<Rightarrow> MessagesPage" where
  "countMessagesResult messagesCount p = p \<lparr> scrollListener := Listening messagesCount \<rparr>"

text \<open>The chain itself, for one scroll event: \<^verbatim>\<open>takeUntil\<close>, the two filters,
  \<^verbatim>\<open>subscribeMessages\<close>.\<close>

definition onScroll :: "MessagesPage \<Rightarrow> MessagesPage" where
  "onScroll p =
     (case scrollListener p of
        Listening messagesCount \<Rightarrow>
          if scrollTop p = 0 then (if \<not> loadingMessages p then subscribeMessages p else p)
          else p
      | _ \<Rightarrow> p)"

text \<open>\<^verbatim>\<open>autoRemoveScrollListener\<close>: the callback given to \<^verbatim>\<open>Messages.find()\<close>, for one
  emission of the message list.\<close>

definition autoRemoveScrollListener :: "Message list \<Rightarrow> MessagesPage \<Rightarrow> MessagesPage" where
  "autoRemoveScrollListener msgs p =
     (case scrollListener p of
        Listening messagesCount \<Rightarrow>
          if messagesCount \<noteq> int (length msgs) then p
          else p \<lparr> scrollListener := ListenerRemoved \<rparr>
      | _ \<Rightarrow> p)"

text \<open>\<^verbatim>\<open>sendTextMessage\<close> and the callback of its remote call.\<close>

definition sendTextMessage :: "MessagesPage \<Rightarrow> MessagesPage" where
  "sendTextMessage p =
     (if message p = [] then p
      else p \<lparr> requests := requests p @
                  [Call ''addMessage'' [Str ''text'', Str (chat_id (selectedChat p)), Str (message p)]],
                pendingAddMessage := pendingAddMessage p + 1 \<rparr>)"

definition addMessageAcknowledged :: "MessagesPage \<Rightarrow> MessagesPage" where
  "addMessageAcknowledged p = p \<lparr> message := [] \<rparr>"

text \<open>\<^verbatim>\<open>sendPictureMessage\<close>, from the moment the upload has resolved with its url.\<close>

definition pictureUploaded :: "string \<Rightarrow> MessagesPage \<Rightarrow> MessagesPage" where
  "pictureUploaded url p =
     p \<lparr> requests := requests p @
           [Call ''addMessage'' [Str ''picture'', Str (chat_id (selectedChat p)), Str url]] \<rparr>"

definition onInputKeypress :: "int \<Rightarrow> MessagesPage \<Rightarrow> MessagesPage" where
  "onInputKeypress keyCode p = (if keyCode = 13 then sendTextMessage p else p)"

definition scrollDown :: "MessagesPage \<Rightarrow> MessagesPage" where
  "scrollDown p =
     (if loadingMessages p then p
      else p \<lparr> scrollTop := scrollHeight p - scrollOffset p, scrollOffset := 0 \<rparr>)"

subsection \<open>The life of the page\<close>

text \<open>
  What can happen to the page between \<^verbatim>\<open>ngOnInit\<close> and \<^verbatim>\<open>ngOnDestroy\<close>. A callback
  of the data layer runs once for each request that waits for it, so an event that finds
  no waiting request changes nothing. A scroll event carries the new position of the
  scroller, an insertion its new height.
\<close>

datatype event =
    Scroll int
  | DomInsertion int
  | SubscriptionReady
  | CountMessagesResult int
  | MessagesFound "Message list"
  | Typed string
  | Keypress int
  | SendTextMessage
  | AddMessageAcknowledged
  | PictureUploaded string

fun step :: "event \<Rightarrow> MessagesPage \<Rightarrow> MessagesPage" where
  "step (Scroll y) p = onScroll (p \<lparr> scrollTop := y \<rparr>)"
| "step (DomInsertion h) p = scrollDown (p \<lparr> scrollHeight := h \<rparr>)"
| "step SubscriptionReady p =
     (if pendingSubscriptions p = 0 then p
      else subscriptionReady (p \<lparr> pendingSubscriptions := pendingSubscriptions p - 1 \<rparr>))"
| "step (CountMessagesResult n) p =
     (if pendingCountMessages p = 0 then p
      else countMessagesResult n (p \<lparr> pendingCountMessages := pendingCountMessages p - 1 \<rparr>))"
| "step (MessagesFound msgs) p = autoRemoveScrollListener msgs p"
| "step (Typed s) p = p \<lparr> message := s \<rparr>"
| "step (Keypress keyCode) p = onInputKeypress keyCode p"
| "step SendTextMessage p = sendTextMessage p"
| "step AddMessageAcknowledged p =
     (if pendingAddMessage p = 0 then p
      else addMessageAcknowledged (p \<lparr> pendingAddMessage := pendingAddMessage p - 1 \<rparr>))"
| "step (PictureUploaded url) p = pictureUploaded url p"

fun run :: "event list \<Rightarrow> MessagesPage \<Rightarrow> MessagesPage" where
  "run [] p = p"
| "run (e # es) p = run es (step e p)"

text \<open>The page as \<^verbatim>\<open>ngOnInit\<close> leaves it.\<close>

definition start :: "Chat \<Rightarrow> string \<Rightarrow> int \<Rightarrow> MessagesPage" where
  "start chat userId height = ngOnInit (constructor chat userId height)"

text \<open>What the log of requests holds: the page indices of the subscriptions to
  \<^verbatim>\<open>messages\<close>, in the order they were requested, and the calls of a given method.\<close>

fun subscribedPages :: "request list \<Rightarrow> nat list" where
  "subscribedPages [] = []"
| "subscribedPages (Subscribe name [Str c, Num n] # rs) =
     (if name = ''messages'' then n # subscribedPages rs else subscribedPages rs)"
| "subscribedPages (r # rs) = subscribedPages rs"

fun callsOf :: "string \<Rightarrow> request list \<Rightarrow> arg list list" where
  "callsOf name [] = []"
| "callsOf name (Call name' args # rs) =
     (if name' = name then args # callsOf name rs else callsOf name rs)"
| "callsOf name (Subscribe name' args # rs) = callsOf name rs"

subsection \<open>The day groups\<close>

text \<open>
  The library moment is not part of the repository. The page builds a moment in two
  ways and renders it with the pattern \<^verbatim>\<open>D MMMM Y\<close>; a moment is modelled as its instant
  in milliseconds, in a time zone without offset.
  \<^item> \<^verbatim>\<open>Moment()\<close> is the current instant.
  \<^item> \<^verbatim>\<open>Moment(o)\<close> for a plain object \<open>o\<close> reads its unit keys (year, month, day or
    date, hour, minute, second, millisecond, and their abbreviations); a date unit that
    is missing is taken from the current date and a missing time unit is zero. A
    \<^verbatim>\<open>Message\<close> has the keys \<^verbatim>\<open>_id\<close>, \<^verbatim>\<open>chatId\<close>, \<^verbatim>\<open>senderId\<close>, \<^verbatim>\<open>content\<close>,
    \<^verbatim>\<open>createdAt\<close>, \<^verbatim>\<open>ownership\<close> and \<^verbatim>\<open>type\<close>, none of them a unit key, so the result
    is the start of the current day whatever the message holds.
  \<^item> \<^verbatim>\<open>Moment(d)\<close> for a \<^verbatim>\<open>Date\<close> is the instant of \<open>d\<close>; the page never calls it.
  \<^item> \<^verbatim>\<open>format('D MMMM Y')\<close> depends on the calendar day of the instant only; the
    rendering of a day number is the parameter \<open>render\<close>.
\<close>

definition msPerDay :: int where
  "msPerDay = 86400000"

definition dayOf :: "int \<Rightarrow> int" where
  "dayOf t = t div msPerDay"

definition MomentNow :: "int \<Rightarrow> int" where
  "MomentNow now = now"

definition MomentOfObject :: "int \<Rightarrow> Message \<Rightarrow> int" where
  "MomentOfObject now m = dayOf now * msPerDay"

definition MomentOfDate :: "int \<Rightarrow> int" where
  "MomentOfDate d = d"

definition format :: "(int \<Rightarrow> string) \<Rightarrow> int \<Rightarrow> string" where
  "format render t = render (dayOf t)"

text \<open>\<^verbatim>\<open>_.groupBy\<close> of underscore: a value is pushed onto the array under its key, and a
  key that is new is added to the result. \<^verbatim>\<open>Object.keys\<close> lists the keys in the order
  they were added (the labels are not array indices).\<close>

fun groupInsert :: "string \<Rightarrow> 'a \<Rightarrow> (string \<times> 'a list) list \<Rightarrow> (string \<times> 'a list) list" where
  "groupInsert k x [] = [(k, [x])]"
| "groupInsert k x ((k', ys) # result) =
     (if k' = k then (k', ys @ [x]) # result else (k', ys) # groupInsert k x result)"

definition groupBy :: "('a \<Rightarrow> string) \<Rightarrow> 'a list \<Rightarrow> (string \<times> 'a list) list" where
  "groupBy f xs = foldl (\<lambda>result x. groupInsert (f x) x result) [] xs"

text \<open>\<^verbatim>\<open>Messages.find({chatId}, {sort: {createdAt: 1}})\<close> on the local collection.\<close>

definition findMessages :: "string \<Rightarrow> Message list \<Rightarrow> Message list" where
  "findMessages c collection = sort_key createdAt (filter (\<lambda>m. chatId m = c) collection)"

text \<open>The annotation of lines 173 to 176.\<close>

definition setOwnership :: "string \<Rightarrow> Message \<Rightarrow> Message" where
  "setOwnership userId m =
     m \<lparr> ownership := Some (if userId = message_senderId m then ''mine'' else ''other'') \<rparr>"

text \<open>\<^verbatim>\<open>findMessagesDayGroups\<close>, for one emission of the cursor: the local collection
  and the clock are arguments. The key of a group is \<^verbatim>\<open>Moment(message).format(format)\<close>,
  the moment of the message object itself, as line 180 has it.\<close>

definition findMessagesDayGroups ::
    "(int \<Rightarrow> string) \<Rightarrow> int \<Rightarrow> Message list \<Rightarrow> MessagesPage \<Rightarrow> DayGroup list" where
  "findMessagesDayGroups render now collection p =
     (let found = findMessages (chat_id (selectedChat p)) collection;
          annotated = map (setOwnership (senderId p)) found;
          grouped = groupBy (\<lambda>m. format render (MomentOfObject now m)) annotated
      in map (\<lambda>(label, ms).
                \<lparr> timestamp = label, messages = ms,
                  today = (format render (MomentNow now) = label) \<rparr>) grouped)"

text \<open>What the comments of lines 162 and 178 announce, grouping by the creation day:
  the same function with \<^verbatim>\<open>Moment(message.createdAt)\<close> as the key. It is not the code; it
  states what the groups would be.\<close>

definition dayGroupsByCreationDay ::
    "(int \<Rightarrow> string) \<Rightarrow> int \<Rightarrow> Message list \<Rightarrow> MessagesPage \<Rightarrow> DayGroup list" where
  "dayGroupsByCreationDay render now collection p =
     (let found = findMessages (chat_id (selectedChat p)) collection;
          annotated = map (setOwnership (senderId p)) found;
          grouped = groupBy (\<lambda>m. format render (MomentOfDate (createdAt m))) annotated
      in map (\<lambda>(label, ms).
                \<lparr> timestamp = label, messages = ms,
                  today = (format render (MomentNow now) = label) \<rparr>) grouped)"

subsection \<open>The invariant of a run and a sample page\<close>

text \<open>What holds of every page reached from \<^verbatim>\<open>ngOnInit\<close>: the flag tells whether a
  subscription waits for its callback, the count is awaited until the listener exists,
  there are as many autorun computations as handles stored, the pages requested are
  one to the counter, and \<^verbatim>\<open>countMessages\<close> was called once, without arguments.\<close>

definition pageInvariant :: "MessagesPage \<Rightarrow> bool" where
  "pageInvariant p =
     (pendingSubscriptions p = (if loadingMessages p then 1 else 0)
      \<and> pendingCountMessages p = (if scrollListener p = NotListening then 1 else 0)
      \<and> autoruns p = (case messagesComputation p of None \<Rightarrow> 0 | Some h \<Rightarrow> 1)
      \<and> subscribedPages (requests p) = [1..<Suc (messagesBatchCounter p)]
      \<and> callsOf ''countMessages'' (requests p) = [[]])"

text \<open>A chat, two messages of it created on consecutive days (01:00 on day 0 and on
  day 1), the page of user \<open>u1\<close> after \<^verbatim>\<open>ngOnInit\<close>, the same page once the first
  subscription is ready and the count 2 has arrived, and once both messages have been
  found.\<close>

definition sampleChat :: Chat where
  "sampleChat = \<lparr> chat_id = ''c1'', chat_title = ''Ann'', chat_picture = ''ann.png'' \<rparr>"

definition firstDayMessage :: Message where
  "firstDayMessage = \<lparr> message_id = ''m1'', chatId = ''c1'', message_senderId = ''u1'',
     content = ''hello'', createdAt = 3600000, ownership = None, message_type = ''text'' \<rparr>"

definition secondDayMessage :: Message where
  "secondDayMessage = \<lparr> message_id = ''m2'', chatId = ''c1'', message_senderId = ''u2'',
     content = ''hi'', createdAt = 90000000, ownership = None, message_type = ''text'' \<rparr>"

definition sampleRender :: "int \<Rightarrow> string" where
  "sampleRender d =
     (if d = 0 then ''1 January 1970'' else if d = 1 then ''2 January 1970'' else ''later'')"

definition samplePage :: MessagesPage where
  "samplePage = start sampleChat ''u1'' 100"

definition listeningPage :: MessagesPage where
  "listeningPage = run [SubscriptionReady, CountMessagesResult 2] samplePage"

definition listenerRemovedPage :: MessagesPage where
  "listenerRemovedPage =
     run [SubscriptionReady, CountMessagesResult 2, MessagesFound [firstDayMessage, secondDayMessage]]
       samplePage"

section \<open>Properties\<close>

subsection \<open>The sample pages, evaluated\<close>

lemma samplePage_eval:
  "samplePage = \<lparr> loadingMessages = True, message = [], messagesBatchCounter = 1,
       messagesComputation = None, picture = ''ann.png'', scrollOffset = 100,
       selectedChat = sampleChat, senderId = ''u1'', title = ''Ann'',
       scrollTop = 0, scrollHeight = 100, scrollListener = NotListening,
       requests = [Subscribe ''messages'' [Str ''c1'', Num 1], Call ''countMessages'' []],
       pendingSubscriptions = 1, pendingCountMessages = 1,
       pendingAddMessage = 0, autoruns = 0 \<rparr>"
  by (simp add: samplePage_def start_def ngOnInit_def subscribeMessages_def constructor_def
      sampleChat_def)

lemma listeningPage_eval:
  "listeningPage = \<lparr> loadingMessages = False, message = [], messagesBatchCounter = 1,
       messagesComputation = Some 0, picture = ''ann.png'', scrollOffset = 100,
       selectedChat = sampleChat, senderId = ''u1'', title = ''Ann'',
       scrollTop = 0, scrollHeight = 100, scrollListener = Listening 2,
       requests = [Subscribe ''messages'' [Str ''c1'', Num 1], Call ''countMessages'' []],
       pendingSubscriptions = 0, pendingCountMessages = 0,
       pendingAddMessage = 0, autoruns = 1 \<rparr>"
  by (simp add: listeningPage_def samplePage_eval subscriptionReady_def autorunMessages_def
      countMessagesResult_def)

lemma listenerRemovedPage_eval:
  "listenerRemovedPage = \<lparr> loadingMessages = False, message = [], messagesBatchCounter = 1,
       messagesComputation = Some 0, picture = ''ann.png'', scrollOffset = 100,
       selectedChat = sampleChat, senderId = ''u1'', title = ''Ann'',
       scrollTop = 0, scrollHeight = 100, scrollListener = ListenerRemoved,
       requests = [Subscribe ''messages'' [Str ''c1'', Num 1], Call ''countMessages'' []],
       pendingSubscriptions = 0, pendingCountMessages = 0,
       pendingAddMessage = 0, autoruns = 1 \<rparr>"
  by (simp add: listenerRemovedPage_def samplePage_eval subscriptionReady_def autorunMessages_def
      countMessagesResult_def autoRemoveScrollListener_def)

subsection \<open>Runs and their invariant\<close>

lemma subscribedPages_append:
  "subscribedPages (rs @ rs') = subscribedPages rs @ subscribedPages rs'"
  by (induction rs rule: subscribedPages.induct) auto

lemma callsOf_append: "callsOf name (rs @ rs') = callsOf name rs @ callsOf name rs'"
  by (induction name rs rule: callsOf.induct) auto

lemma pageInvariant_start: "pageInvariant (start chat userId height)"
  by (simp add: pageInvariant_def start_def ngOnInit_def subscribeMessages_def constructor_def)

lemma pageInvariant_subscribeMessages:
  "pageInvariant p \<Longrightarrow> \<not> loadingMessages p \<Longrightarrow> pageInvariant (subscribeMessages p)"
  by (simp add: pageInvariant_def subscribeMessages_def subscribedPages_append callsOf_append)

lemma pageInvariant_step: "pageInvariant p \<Longrightarrow> pageInvariant (step e p)"
proof (cases e)
  case (Scroll y)
  assume "pageInvariant p"
  then have "pageInvariant (p\<lparr>scrollTop := y\<rparr>)" by (simp add: pageInvariant_def)
  then show ?thesis using Scroll
    by (auto simp: onScroll_def pageInvariant_subscribeMessages split: listener.splits)
next
  case SubscriptionReady
  assume "pageInvariant p"
  then show ?thesis using SubscriptionReady
    by (auto simp: pageInvariant_def subscriptionReady_def autorunMessages_def Let_def
        split: option.splits if_splits)
next
  case (CountMessagesResult n)
  assume "pageInvariant p"
  then show ?thesis using CountMessagesResult
    by (auto simp: pageInvariant_def countMessagesResult_def split: if_splits)
next
  case (MessagesFound msgs)
  assume "pageInvariant p"
  then show ?thesis using MessagesFound
    by (auto simp: pageInvariant_def autoRemoveScrollListener_def split: listener.splits if_splits)
qed (auto simp: pageInvariant_def scrollDown_def onInputKeypress_def sendTextMessage_def
      addMessageAcknowledged_def pictureUploaded_def subscribedPages_append callsOf_append)

lemma pageInvariant_run: "pageInvariant p \<Longrightarrow> pageInvariant (run es p)"
  by (induction es arbitrary: p) (auto simp: pageInvariant_step)

lemma pendingSubscriptions_run:
  "pendingSubscriptions (run es (start chat userId height)) \<le> 1"
  using pageInvariant_run [OF pageInvariant_start, of es chat userId height]
  by (simp add: pageInvariant_def)

lemma pendingCountMessages_listening:
  "scrollListener (run es (start chat userId height)) = Listening n \<Longrightarrow>
   pendingCountMessages (run es (start chat userId height)) = 0"
  using pageInvariant_run [OF pageInvariant_start, of es chat userId height]
  by (simp add: pageInvariant_def)

subsection \<open>Sending a text message\<close>

lemma message_step_unchanged:
  "e \<noteq> AddMessageAcknowledged \<Longrightarrow> \<forall>s. e \<noteq> Typed s \<Longrightarrow> message (step e p) = message p"
  by (cases e) (auto simp: onScroll_def scrollDown_def subscriptionReady_def autorunMessages_def
      autoRemoveScrollListener_def onInputKeypress_def sendTextMessage_def Let_def
      subscribeMessages_def countMessagesResult_def pictureUploaded_def
      split: option.splits listener.splits)

lemma message_run_unchanged:
  "AddMessageAcknowledged \<notin> set es \<Longrightarrow> \<forall>s. Typed s \<notin> set es \<Longrightarrow>
   message (run es p) = message p"
proof (induction es arbitrary: p)
  case Nil
  then show ?case by simp
next
  case (Cons e es)
  then have "message (step e p) = message p"
    by (intro message_step_unchanged) auto
  moreover have "message (run es (step e p)) = message (step e p)"
    using Cons by auto
  ultimately show ?case by simp
qed

text \<open>
  Claim C2. With a non-empty input, \<^verbatim>\<open>sendTextMessage\<close> adds exactly one request to
  the log, the call of \<^verbatim>\<open>addMessage\<close> with the kind \<open>text\<close>, the id of the selected
  chat and the input as it is. The input is not cleared by the call: it is the same
  after \<^verbatim>\<open>sendTextMessage\<close> and stays the same through any events other than the
  acknowledgement (and the user typing); the acknowledgement sets it to the empty string.
\<close>

theorem sendTextMessage_sends_once:
  assumes "message p \<noteq> []"
  shows "requests (sendTextMessage p) = requests p @
           [Call ''addMessage'' [Str ''text'', Str (chat_id (selectedChat p)), Str (message p)]]
       \<and> message (sendTextMessage p) = message p
       \<and> (AddMessageAcknowledged \<notin> set es \<and> (\<forall>s. Typed s \<notin> set es)
            \<longrightarrow> message (run es (sendTextMessage p)) = message p)
       \<and> message (step AddMessageAcknowledged (sendTextMessage p)) = []"
  using assms
  by (simp add: message_run_unchanged) (simp add: sendTextMessage_def addMessageAcknowledged_def)

text \<open>The sample page after the user has typed \<open>hello\<close>.\<close>

theorem sendTextMessage_sends_once_witness:
  "message (step (Typed ''hello'') samplePage) \<noteq> []
   \<and> requests (sendTextMessage (step (Typed ''hello'') samplePage)) =
       [Subscribe ''messages'' [Str ''c1'', Num 1], Call ''countMessages'' [],
        Call ''addMessage'' [Str ''text'', Str ''c1'', Str ''hello'']]
   \<and> message (sendTextMessage (step (Typed ''hello'') samplePage)) = ''hello''
   \<and> message (run [SubscriptionReady, DomInsertion 160]
        (sendTextMessage (step (Typed ''hello'') samplePage))) = ''hello''
   \<and> message (step AddMessageAcknowledged (sendTextMessage (step (Typed ''hello'') samplePage))) = []"
proof -
  have h: "message (step (Typed ''hello'') samplePage) \<noteq> []" by simp
  have e: "AddMessageAcknowledged \<notin> set [SubscriptionReady, DomInsertion 160]
           \<and> (\<forall>s. Typed s \<notin> set [SubscriptionReady, DomInsertion 160])" by simp
  show ?thesis
    using h e sendTextMessage_sends_once [OF h, of "[SubscriptionReady, DomInsertion 160]"]
    by (simp add: samplePage_def start_def ngOnInit_def subscribeMessages_def constructor_def
        sampleChat_def)
qed

text \<open>
  Claim C3. With an empty input (no character at all, not even white space)
  \<^verbatim>\<open>sendTextMessage\<close> returns at its guard: the page is the same, and so is the log of
  requests.
\<close>

theorem sendTextMessage_empty:
  "message p = [] \<Longrightarrow> sendTextMessage p = p \<and> requests (sendTextMessage p) = requests p"
  by (simp add: sendTextMessage_def)

text \<open>The sample page, whose input is still empty.\<close>

theorem sendTextMessage_empty_witness:
  "message samplePage = [] \<and> sendTextMessage samplePage = samplePage
   \<and> requests (sendTextMessage samplePage) =
       [Subscribe ''messages'' [Str ''c1'', Num 1], Call ''countMessages'' []]"
proof -
  have h: "message samplePage = []"
    by (simp add: samplePage_def start_def ngOnInit_def subscribeMessages_def constructor_def)
  show ?thesis
    using h sendTextMessage_empty [OF h]
    by (simp add: samplePage_def start_def ngOnInit_def subscribeMessages_def constructor_def
        sampleChat_def)
qed

text \<open>
  Claim C10. \<^verbatim>\<open>onInputKeypress\<close> is \<^verbatim>\<open>sendTextMessage\<close> when the key code is 13 and
  leaves the page as it is for every other key code; so a key press adds a request
  exactly when the code is 13 and the input is not empty.
\<close>

theorem onInputKeypress_enter_only:
  "(keyCode = 13 \<longrightarrow> onInputKeypress keyCode p = sendTextMessage p)
   \<and> (keyCode \<noteq> 13 \<longrightarrow> onInputKeypress keyCode p = p)
   \<and> (requests (onInputKeypress keyCode p) \<noteq> requests p) = (keyCode = 13 \<and> message p \<noteq> [])"
  by (simp add: onInputKeypress_def sendTextMessage_def)

text \<open>The key codes 13 and 65 on the sample page with \<open>hello\<close> typed.\<close>

theorem onInputKeypress_enter_only_witness:
  "onInputKeypress 13 (step (Typed ''hello'') samplePage) =
     sendTextMessage (step (Typed ''hello'') samplePage)
   \<and> onInputKeypress 65 (step (Typed ''hello'') samplePage) = step (Typed ''hello'') samplePage
   \<and> requests (onInputKeypress 13 (step (Typed ''hello'') samplePage)) \<noteq>
       requests (step (Typed ''hello'') samplePage)"
  using onInputKeypress_enter_only [of 13 "step (Typed ''hello'') samplePage"]
    onInputKeypress_enter_only [of 65 "step (Typed ''hello'') samplePage"]
  by (simp add: onInputKeypress_def)

subsection \<open>Pagination\<close>

text \<open>
  Claim C4, as stated, fails on a page whose scroll listener is gone: on the sample page
  after the first subscription is ready, the count 2 has arrived and two messages have
  been found, \<^verbatim>\<open>loadingMessages\<close> is false, yet a scroll to the top neither increments
  the counter nor adds a subscription.
\<close>

theorem scroll_to_top_counterexample:
  "\<not> (\<not> loadingMessages listenerRemovedPage \<longrightarrow>
        messagesBatchCounter (step (Scroll 0) listenerRemovedPage) =
          messagesBatchCounter listenerRemovedPage + 1
        \<and> requests (step (Scroll 0) listenerRemovedPage) =
            requests listenerRemovedPage @
              [Subscribe ''messages'' [Str (chat_id (selectedChat listenerRemovedPage)),
                 Num (messagesBatchCounter listenerRemovedPage + 1)]])"
  by (simp add: listenerRemovedPage_eval onScroll_def)

text \<open>
  Claim C4, amended. For a scroll to the top: while \<^verbatim>\<open>loadingMessages\<close> is true the page
  only records the new position, and no subscription is issued; while the scroll
  listener is attached and \<^verbatim>\<open>loadingMessages\<close> is false, \<^verbatim>\<open>subscribeMessages\<close> runs, the
  counter is incremented by exactly one, one subscription with the new counter value is
  added to the log and the flag is raised; while the listener is not attached (the count
  has not arrived yet, or the listener was removed) nothing but the position changes.
  In every run from \<^verbatim>\<open>ngOnInit\<close> at most one subscription waits for its callback.
\<close>

theorem scroll_to_top_while_listening:
  "(loadingMessages p \<longrightarrow> step (Scroll 0) p = p \<lparr> scrollTop := 0 \<rparr>)
   \<and> (scrollListener p = Listening n \<and> \<not> loadingMessages p \<longrightarrow>
        step (Scroll 0) p = subscribeMessages (p \<lparr> scrollTop := 0 \<rparr>)
        \<and> messagesBatchCounter (step (Scroll 0) p) = messagesBatchCounter p + 1
        \<and> requests (step (Scroll 0) p) = requests p @
            [Subscribe ''messages'' [Str (chat_id (selectedChat p)), Num (messagesBatchCounter p + 1)]]
        \<and> loadingMessages (step (Scroll 0) p))
   \<and> (scrollListener p = NotListening \<or> scrollListener p = ListenerRemoved \<longrightarrow>
        step (Scroll 0) p = p \<lparr> scrollTop := 0 \<rparr>)
   \<and> pendingSubscriptions (run es (start chat userId height)) \<le> 1"
  using pendingSubscriptions_run [of es chat userId height]
  by (auto simp: onScroll_def subscribeMessages_def split: listener.splits)

text \<open>The listening sample page scrolled to the top twice, and the page without its
  listener.\<close>

theorem scroll_to_top_while_listening_witness:
  "scrollListener listeningPage = Listening 2 \<and> \<not> loadingMessages listeningPage
   \<and> messagesBatchCounter (step (Scroll 0) listeningPage) = 2
   \<and> requests (step (Scroll 0) listeningPage) =
       [Subscribe ''messages'' [Str ''c1'', Num 1], Call ''countMessages'' [],
        Subscribe ''messages'' [Str ''c1'', Num 2]]
   \<and> loadingMessages (step (Scroll 0) listeningPage)
   \<and> step (Scroll 0) (step (Scroll 0) listeningPage) = step (Scroll 0) listeningPage
   \<and> scrollListener listenerRemovedPage = ListenerRemoved
   \<and> step (Scroll 0) listenerRemovedPage = listenerRemovedPage
   \<and> pendingSubscriptions (run [Scroll 0, Scroll 0] samplePage) \<le> 1"
  using scroll_to_top_while_listening
    [of listeningPage 2 "[Scroll 0, Scroll 0]" sampleChat "''u1''" 100]
  by (simp add: samplePage_eval listeningPage_eval listenerRemovedPage_eval sampleChat_def
      onScroll_def subscribeMessages_def)

lemma removed_step:
  "scrollListener p = ListenerRemoved \<Longrightarrow> pendingCountMessages p = 0 \<Longrightarrow>
   scrollListener (step e p) = ListenerRemoved \<and> pendingCountMessages (step e p) = 0 \<and>
   subscribedPages (requests (step e p)) = subscribedPages (requests p) \<and>
   messagesBatchCounter (step e p) = messagesBatchCounter p"
  by (cases e) (auto simp: onScroll_def scrollDown_def subscriptionReady_def autorunMessages_def
      autoRemoveScrollListener_def onInputKeypress_def sendTextMessage_def Let_def
      addMessageAcknowledged_def pictureUploaded_def subscribedPages_append split: option.splits)

lemma removed_run:
  "scrollListener p = ListenerRemoved \<Longrightarrow> pendingCountMessages p = 0 \<Longrightarrow>
   scrollListener (run es p) = ListenerRemoved \<and> pendingCountMessages (run es p) = 0 \<and>
   subscribedPages (requests (run es p)) = subscribedPages (requests p) \<and>
   messagesBatchCounter (run es p) = messagesBatchCounter p"
proof (induction es arbitrary: p)
  case Nil
  then show ?case by simp
next
  case (Cons e es)
  from removed_step[OF Cons.prems, of e] Cons.IH[of "step e p"] show ?case by simp
qed

lemma listening_step:
  "scrollListener p = Listening n \<Longrightarrow> pendingCountMessages p = 0 \<Longrightarrow>
   (scrollListener (step e p) = Listening n \<or> scrollListener (step e p) = ListenerRemoved) \<and>
   pendingCountMessages (step e p) = 0"
  by (cases e) (auto simp: onScroll_def scrollDown_def subscriptionReady_def autorunMessages_def
      autoRemoveScrollListener_def onInputKeypress_def sendTextMessage_def Let_def
      subscribeMessages_def addMessageAcknowledged_def pictureUploaded_def split: option.splits)

lemma listening_run:
  "scrollListener p = Listening n \<Longrightarrow> pendingCountMessages p = 0 \<Longrightarrow>
   scrollListener (run es p) = Listening n \<or> scrollListener (run es p) = ListenerRemoved"
proof (induction es arbitrary: p)
  case Nil
  then show ?case by simp
next
  case (Cons e es)
  from listening_step[OF Cons.prems, of e]
  have d: "scrollListener (step e p) = Listening n \<or> scrollListener (step e p) = ListenerRemoved"
    and c: "pendingCountMessages (step e p) = 0" by auto
  from d show ?case
  proof
    assume "scrollListener (step e p) = Listening n"
    from Cons.IH[OF this c] show ?thesis by simp
  next
    assume "scrollListener (step e p) = ListenerRemoved"
    from removed_run[OF this c, of es] show ?thesis by simp
  qed
qed

text \<open>
  Claim C5. Take a page reached from \<^verbatim>\<open>ngOnInit\<close> whose listener is attached with the
  captured count \<open>n\<close>. When \<^verbatim>\<open>Messages.find()\<close> emits a list of exactly \<open>n\<close> messages
  the listener is removed, and through every later run of events it stays removed, no
  subscription is added to the log and the counter keeps its value. A list of another
  length changes nothing. The captured count is never refreshed: whatever happens, the
  listener is either still attached with the same \<open>n\<close> or removed.
\<close>

theorem scroll_listener_removed_for_good:
  assumes "p = run es0 (start chat userId height)"
    and "scrollListener p = Listening n"
  shows "(int (length msgs) = n \<longrightarrow>
            scrollListener (run es (step (MessagesFound msgs) p)) = ListenerRemoved
            \<and> subscribedPages (requests (run es (step (MessagesFound msgs) p))) =
                subscribedPages (requests p)
            \<and> messagesBatchCounter (run es (step (MessagesFound msgs) p)) = messagesBatchCounter p)
       \<and> (int (length msgs) \<noteq> n \<longrightarrow> step (MessagesFound msgs) p = p)
       \<and> (scrollListener (run es p) = Listening n \<or> scrollListener (run es p) = ListenerRemoved)"
proof -
  have c: "pendingCountMessages p = 0"
    using assms pendingCountMessages_listening by simp
  have "int (length msgs) = n \<Longrightarrow> scrollListener (step (MessagesFound msgs) p) = ListenerRemoved
      \<and> pendingCountMessages (step (MessagesFound msgs) p) = 0
      \<and> requests (step (MessagesFound msgs) p) = requests p
      \<and> messagesBatchCounter (step (MessagesFound msgs) p) = messagesBatchCounter p"
    using assms(2) c by (simp add: autoRemoveScrollListener_def)
  then have a: "int (length msgs) = n \<Longrightarrow>
            scrollListener (run es (step (MessagesFound msgs) p)) = ListenerRemoved
            \<and> subscribedPages (requests (run es (step (MessagesFound msgs) p))) =
                subscribedPages (requests p)
            \<and> messagesBatchCounter (run es (step (MessagesFound msgs) p)) = messagesBatchCounter p"
    using removed_run [of "step (MessagesFound msgs) p" es] by simp
  have b: "int (length msgs) \<noteq> n \<Longrightarrow> step (MessagesFound msgs) p = p"
    using assms(2) by (simp add: autoRemoveScrollListener_def)
  from a b listening_run [OF assms(2) c, of es] show ?thesis by blast
qed

text \<open>The sample page with the count 2 captured, two messages found, then scrolled to
  the top twice around a second count that nothing awaits.\<close>

theorem scroll_listener_removed_for_good_witness:
  "scrollListener (run [SubscriptionReady, CountMessagesResult 2] (start sampleChat ''u1'' 100)) =
     Listening 2
   \<and> int (length [firstDayMessage, secondDayMessage]) = 2
   \<and> scrollListener (run [Scroll 0, CountMessagesResult 5, Scroll 0]
         (step (MessagesFound [firstDayMessage, secondDayMessage])
           (run [SubscriptionReady, CountMessagesResult 2] (start sampleChat ''u1'' 100)))) =
       ListenerRemoved
   \<and> subscribedPages (requests (run [Scroll 0, CountMessagesResult 5, Scroll 0]
         (step (MessagesFound [firstDayMessage, secondDayMessage])
           (run [SubscriptionReady, CountMessagesResult 2] (start sampleChat ''u1'' 100))))) = [1]
   \<and> messagesBatchCounter (run [Scroll 0, CountMessagesResult 5, Scroll 0]
         (step (MessagesFound [firstDayMessage, secondDayMessage])
           (run [SubscriptionReady, CountMessagesResult 2] (start sampleChat ''u1'' 100)))) = 1"
proof -
  have l: "scrollListener (run [SubscriptionReady, CountMessagesResult 2]
             (start sampleChat ''u1'' 100)) = Listening 2"
    by (simp add: start_def ngOnInit_def subscribeMessages_def constructor_def
        subscriptionReady_def autorunMessages_def countMessagesResult_def)
  show ?thesis
    using scroll_listener_removed_for_good [OF refl l,
        of "[firstDayMessage, secondDayMessage]" "[Scroll 0, CountMessagesResult 5, Scroll 0]"]
    by (simp add: start_def ngOnInit_def subscribeMessages_def constructor_def
        subscriptionReady_def autorunMessages_def countMessagesResult_def
        autoRemoveScrollListener_def onScroll_def)
qed

text \<open>
  Claim C8. \<^verbatim>\<open>ngOnInit\<close> on the constructed page issues two requests: the subscription
  to page 1 and one call of \<^verbatim>\<open>countMessages\<close>. In every run from there the log holds
  exactly one call of \<^verbatim>\<open>countMessages\<close> (without arguments), and the pages subscribed
  to are 1, 2, ... up to the counter, in this order; an event leaves the counter or adds
  one to it.
\<close>

theorem count_once_pages_from_one:
  "requests (ngOnInit (constructor chat userId height)) =
     [Subscribe ''messages'' [Str (chat_id chat), Num 1], Call ''countMessages'' []]
   \<and> callsOf ''countMessages'' (requests (run es (start chat userId height))) = [[]]
   \<and> subscribedPages (requests (run es (start chat userId height))) =
       [1..<Suc (messagesBatchCounter (run es (start chat userId height)))]
   \<and> messagesBatchCounter (step e p) \<in> {messagesBatchCounter p, messagesBatchCounter p + 1}"
proof -
  have "messagesBatchCounter (step e p) \<in> {messagesBatchCounter p, messagesBatchCounter p + 1}"
    by (cases e) (auto simp: onScroll_def scrollDown_def subscriptionReady_def
      autorunMessages_def autoRemoveScrollListener_def onInputKeypress_def sendTextMessage_def
      Let_def subscribeMessages_def countMessagesResult_def pictureUploaded_def
      addMessageAcknowledged_def split: option.splits listener.splits if_splits)
  then show ?thesis
    using pageInvariant_run [OF pageInvariant_start, of es chat userId height]
    by (simp add: pageInvariant_def ngOnInit_def subscribeMessages_def constructor_def)
qed

text \<open>The sample page through a second subscription.\<close>

theorem count_once_pages_from_one_witness:
  "requests (ngOnInit (constructor sampleChat ''u1'' 100)) =
     [Subscribe ''messages'' [Str ''c1'', Num 1], Call ''countMessages'' []]
   \<and> callsOf ''countMessages'' (requests (run [SubscriptionReady, CountMessagesResult 2, Scroll 0]
        (start sampleChat ''u1'' 100))) = [[]]
   \<and> subscribedPages (requests (run [SubscriptionReady, CountMessagesResult 2, Scroll 0]
        (start sampleChat ''u1'' 100))) = [1, 2]"
  using count_once_pages_from_one [of sampleChat "''u1''" 100
      "[SubscriptionReady, CountMessagesResult 2, Scroll 0]"]
  by (simp add: start_def ngOnInit_def subscribeMessages_def constructor_def sampleChat_def
      subscriptionReady_def autorunMessages_def countMessagesResult_def onScroll_def)

subsection \<open>The autorun computation\<close>

lemma messagesComputation_step:
  "messagesComputation p = Some h \<Longrightarrow>
   messagesComputation (step e p) = Some h \<and> autoruns (step e p) = autoruns p"
  by (cases e) (auto simp: onScroll_def scrollDown_def subscriptionReady_def autorunMessages_def
      autoRemoveScrollListener_def onInputKeypress_def sendTextMessage_def Let_def
      subscribeMessages_def countMessagesResult_def pictureUploaded_def
      addMessageAcknowledged_def split: option.splits listener.splits if_splits)

lemma messagesComputation_run:
  "messagesComputation p = Some h \<Longrightarrow>
   messagesComputation (run es p) = Some h \<and> autoruns (run es p) = autoruns p"
proof (induction es arbitrary: p)
  case Nil
  then show ?case by simp
next
  case (Cons e es)
  from messagesComputation_step [OF Cons.prems, of e] Cons.IH [of "step e p"]
  show ?case by simp
qed

text \<open>
  Claim C9. The callback of a subscription creates the autorun computation when
  \<^verbatim>\<open>messagesComputation\<close> is undefined, and stores its handle. When a handle is stored,
  the callback, and any run of events, leaves the handle and the number of computations
  as they are. So in every run from \<^verbatim>\<open>ngOnInit\<close> at most one computation exists: none
  while the handle is undefined, one afterwards.
\<close>

theorem messagesComputation_created_once:
  "(messagesComputation p = None \<longrightarrow>
      messagesComputation (subscriptionReady p) = Some (autoruns p)
      \<and> autoruns (subscriptionReady p) = autoruns p + 1)
   \<and> (messagesComputation p = Some h \<longrightarrow>
        messagesComputation (subscriptionReady p) = Some h
        \<and> autoruns (subscriptionReady p) = autoruns p
        \<and> messagesComputation (run es p) = Some h
        \<and> autoruns (run es p) = autoruns p)
   \<and> autoruns (run es (start chat userId height)) \<le> 1
   \<and> autoruns (run es (start chat userId height)) =
       (if messagesComputation (run es (start chat userId height)) = None then 0 else 1)"
  using pageInvariant_run [OF pageInvariant_start, of es chat userId height]
    messagesComputation_run [of p h es]
  by (auto simp: pageInvariant_def subscriptionReady_def autorunMessages_def split: option.splits)

text \<open>The first callback on the sample page, and two more pages on the listening page.\<close>

theorem messagesComputation_created_once_witness:
  "messagesComputation samplePage = None
   \<and> messagesComputation (subscriptionReady samplePage) = Some 0
   \<and> autoruns (subscriptionReady samplePage) = 1
   \<and> messagesComputation listeningPage = Some 0
   \<and> messagesComputation (subscriptionReady listeningPage) = Some 0
   \<and> autoruns (subscriptionReady listeningPage) = 1
   \<and> messagesComputation
        (run [Scroll 0, SubscriptionReady, Scroll 0, SubscriptionReady] listeningPage) = Some 0
   \<and> autoruns (run [Scroll 0, SubscriptionReady, Scroll 0, SubscriptionReady] listeningPage) = 1"
  using messagesComputation_created_once [of samplePage 0]
    messagesComputation_created_once [of listeningPage 0
      "[Scroll 0, SubscriptionReady, Scroll 0, SubscriptionReady]"]
  by (simp add: samplePage_eval listeningPage_eval)

subsection \<open>Scrolling after an insertion\<close>

lemma new_subscription_saves_height:
  "subscribedPages (requests (step e p)) \<noteq> subscribedPages (requests p) \<Longrightarrow>
   scrollOffset (step e p) = scrollHeight (step e p)"
  by (cases e) (auto simp: onScroll_def scrollDown_def subscriptionReady_def autorunMessages_def
      autoRemoveScrollListener_def onInputKeypress_def sendTextMessage_def Let_def
      subscribeMessages_def countMessagesResult_def pictureUploaded_def
      addMessageAcknowledged_def subscribedPages_append
      split: option.splits listener.splits if_splits)

text \<open>
  Claim C6. An insertion that brings the scroller to the height \<open>h\<close>: while
  \<^verbatim>\<open>loadingMessages\<close> is false the position becomes \<open>h\<close> minus the saved offset and the
  offset becomes 0; while it is true only the height changes, position and offset are
  kept. \<^verbatim>\<open>subscribeMessages\<close> saves the current height as the offset and issues the
  subscription; and whenever an event adds a subscription to the log, the offset after
  it is the height of the scroller.
\<close>

theorem scrollDown_on_insertion:
  "(\<not> loadingMessages p \<longrightarrow>
      step (DomInsertion h) p =
        p \<lparr> scrollHeight := h, scrollTop := h - scrollOffset p, scrollOffset := 0 \<rparr>)
   \<and> (loadingMessages p \<longrightarrow> step (DomInsertion h) p = p \<lparr> scrollHeight := h \<rparr>)
   \<and> scrollOffset (subscribeMessages p) = scrollHeight p
   \<and> requests (subscribeMessages p) = requests p @
        [Subscribe ''messages'' [Str (chat_id (selectedChat p)), Num (messagesBatchCounter p + 1)]]
   \<and> (subscribedPages (requests (step e p)) \<noteq> subscribedPages (requests p) \<longrightarrow>
        scrollOffset (step e p) = scrollHeight (step e p))"
  using new_subscription_saves_height [of e p]
  by (simp add: scrollDown_def subscribeMessages_def)

text \<open>The listening sample page asks for page 2 at height 100; the list grows to 260
  before, and after, the subscription is ready.\<close>

theorem scrollDown_on_insertion_witness:
  "loadingMessages (step (Scroll 0) listeningPage)
   \<and> scrollOffset (step (Scroll 0) listeningPage) = 100
   \<and> scrollTop (step (DomInsertion 260) (step (Scroll 0) listeningPage)) = 0
   \<and> scrollOffset (step (DomInsertion 260) (step (Scroll 0) listeningPage)) = 100
   \<and> \<not> loadingMessages (step SubscriptionReady (step (Scroll 0) listeningPage))
   \<and> scrollTop (step (DomInsertion 260)
        (step SubscriptionReady (step (Scroll 0) listeningPage))) = 160
   \<and> scrollOffset (step (DomInsertion 260)
        (step SubscriptionReady (step (Scroll 0) listeningPage))) = 0"
  using scrollDown_on_insertion
      [of "step SubscriptionReady (step (Scroll 0) listeningPage)" 260 "Scroll 0"]
    scrollDown_on_insertion [of "step (Scroll 0) listeningPage" 260 "Scroll 0"]
  by (simp add: listeningPage_eval onScroll_def subscribeMessages_def scrollDown_def
      subscriptionReady_def)

subsection \<open>The day groups\<close>

lemma groupInsert_values:
  "(\<Union>g\<in>set (groupInsert k x result). set (snd g)) = insert x (\<Union>g\<in>set result. set (snd g))"
  by (induction k x result rule: groupInsert.induct) auto

lemma foldl_groupInsert_values:
  "(\<Union>g\<in>set (foldl (\<lambda>result x. groupInsert (f x) x result) acc xs). set (snd g)) =
   (\<Union>g\<in>set acc. set (snd g)) \<union> set xs"
  by (induction xs arbitrary: acc) (auto simp: groupInsert_values)

lemma groupBy_values: "(\<Union>g\<in>set (groupBy f xs). set (snd g)) = set xs"
  by (simp add: groupBy_def foldl_groupInsert_values)

text \<open>The messages of the groups are the messages of the selected chat, annotated.\<close>

lemma findMessagesDayGroups_messages:
  "(\<Union>g\<in>set (findMessagesDayGroups render now collection p). set (messages g)) =
   setOwnership (senderId p) ` {m \<in> set collection. chatId m = chat_id (selectedChat p)}"
proof -
  let ?ann = "map (setOwnership (senderId p)) (findMessages (chat_id (selectedChat p)) collection)"
  let ?grouped = "groupBy (\<lambda>m. format render (MomentOfObject now m)) ?ann"
  have "(\<Union>g\<in>set (findMessagesDayGroups render now collection p). set (messages g)) =
        (\<Union>g\<in>set ?grouped. set (snd g))"
    by (auto simp: findMessagesDayGroups_def Let_def split: prod.splits)
  also have "\<dots> = set ?ann" by (rule groupBy_values)
  also have "\<dots> = setOwnership (senderId p) ` {m \<in> set collection. chatId m = chat_id (selectedChat p)}"
    by (auto simp: findMessages_def)
  finally show ?thesis .
qed

text \<open>
  Claim C7. Every message of every group returned by \<^verbatim>\<open>findMessagesDayGroups\<close> has the
  ownership \<open>mine\<close> exactly when its sender is the user of the page, and \<open>other\<close>
  exactly when it is not.
\<close>

theorem ownership_annotation:
  "\<forall>g\<in>set (findMessagesDayGroups render now collection p). \<forall>m\<in>set (messages g).
     (ownership m = Some ''mine'') = (message_senderId m = senderId p) \<and>
     (ownership m = Some ''other'') = (message_senderId m \<noteq> senderId p)"
proof (intro ballI)
  fix g m
  assume "g \<in> set (findMessagesDayGroups render now collection p)" and "m \<in> set (messages g)"
  then have "m \<in> (\<Union>g\<in>set (findMessagesDayGroups render now collection p). set (messages g))"
    by blast
  then obtain m0 where "m = setOwnership (senderId p) m0"
    unfolding findMessagesDayGroups_messages by blast
  then show "(ownership m = Some ''mine'') = (message_senderId m = senderId p) \<and>
     (ownership m = Some ''other'') = (message_senderId m \<noteq> senderId p)"
    by (auto simp: setOwnership_def)
qed

text \<open>The two sample messages, the first sent by the user of the page.\<close>

theorem ownership_annotation_witness:
  "set (concat (map messages
      (findMessagesDayGroups sampleRender 90000000 [secondDayMessage, firstDayMessage] samplePage))) =
     {firstDayMessage \<lparr> ownership := Some ''mine'' \<rparr>,
      secondDayMessage \<lparr> ownership := Some ''other'' \<rparr>}
   \<and> message_senderId firstDayMessage = senderId samplePage
   \<and> message_senderId secondDayMessage \<noteq> senderId samplePage"
  using ownership_annotation
    [of sampleRender 90000000 "[secondDayMessage, firstDayMessage]" samplePage]
  by (auto simp: findMessagesDayGroups_def findMessages_def setOwnership_def groupBy_def
      firstDayMessage_def secondDayMessage_def samplePage_eval sampleChat_def Let_def
      format_def MomentOfObject_def MomentNow_def)

lemma foldl_groupInsert_same_key:
  "\<forall>x\<in>set xs. f x = k \<Longrightarrow>
   foldl (\<lambda>result x. groupInsert (f x) x result) [(k, ys)] xs = [(k, ys @ xs)]"
  by (induction xs arbitrary: ys) auto

lemma groupBy_same_key:
  "\<forall>x\<in>set xs. f x = k \<Longrightarrow> groupBy f xs = (if xs = [] then [] else [(k, xs)])"
  unfolding groupBy_def by (cases xs) (auto simp: foldl_groupInsert_same_key)

lemma dayOf_start_of_day: "dayOf (dayOf t * msPerDay) = dayOf t"
  by (simp add: dayOf_def msPerDay_def)

text \<open>The key of line 180 does not depend on the message: the messages of the chat,
  if there are any, all fall into one group, labelled with the current day.\<close>

lemma findMessagesDayGroups_one_label:
  "findMessagesDayGroups render now collection p =
    (let ms = map (setOwnership (senderId p)) (findMessages (chat_id (selectedChat p)) collection)
     in if ms = [] then []
        else [\<lparr> timestamp = render (dayOf now), messages = ms, today = True \<rparr>])"
  unfolding findMessagesDayGroups_def Let_def
  by (subst groupBy_same_key[where k = "render (dayOf now)"])
     (auto simp: MomentOfObject_def MomentNow_def format_def dayOf_start_of_day)

lemma findMessagesDayGroups_at_most_one:
  "length (findMessagesDayGroups render now collection p) \<le> 1"
  by (simp add: findMessagesDayGroups_one_label Let_def)

text \<open>Within a group the messages are in ascending order of creation, and a group
  whose label is the rendering of the current day is marked.\<close>

lemma findMessagesDayGroups_sorted:
  "g \<in> set (findMessagesDayGroups render now collection p) \<Longrightarrow>
   sorted (map createdAt (messages g)) \<and> (today g = (timestamp g = render (dayOf now)))"
proof -
  have "createdAt \<circ> setOwnership u = createdAt" for u
    by (auto simp: setOwnership_def)
  then show "g \<in> set (findMessagesDayGroups render now collection p) \<Longrightarrow>
      sorted (map createdAt (messages g)) \<and> (today g = (timestamp g = render (dayOf now)))"
    by (auto simp: findMessagesDayGroups_one_label findMessages_def Let_def split: if_splits)
qed

text \<open>
  Claim C1, on the code. The two sample messages were created on day 0 and on day 1.
  With the clock on day 1, \<^verbatim>\<open>findMessagesDayGroups\<close> returns one group, not two: it
  holds both messages under the label of day 1 and is marked as today. This holds for
  every rendering of the days.
\<close>

theorem findMessagesDayGroups_two_days:
  "dayOf (createdAt firstDayMessage) = 0 \<and> dayOf (createdAt secondDayMessage) = 1 \<and>
   findMessagesDayGroups render 90000000 [secondDayMessage, firstDayMessage] samplePage =
     [\<lparr> timestamp = render 1,
        messages = [firstDayMessage \<lparr> ownership := Some ''mine'' \<rparr>,
                    secondDayMessage \<lparr> ownership := Some ''other'' \<rparr>],
        today = True \<rparr>]"
  by (simp add: findMessagesDayGroups_one_label findMessages_def setOwnership_def
      firstDayMessage_def secondDayMessage_def samplePage_eval sampleChat_def
      dayOf_def msPerDay_def Let_def)

text \<open>Grouping by the creation day, as the comments of the source announce, gives the
  two groups of the claim on the same input, when the two days are rendered
  differently.\<close>

lemma dayGroupsByCreationDay_two_days:
  "render 0 \<noteq> render 1 \<Longrightarrow>
   dayGroupsByCreationDay render 90000000 [secondDayMessage, firstDayMessage] samplePage =
     [\<lparr> timestamp = render 0,
        messages = [firstDayMessage \<lparr> ownership := Some ''mine'' \<rparr>], today = False \<rparr>,
      \<lparr> timestamp = render 1,
        messages = [secondDayMessage \<lparr> ownership := Some ''other'' \<rparr>], today = True \<rparr>]"
  by (simp add: dayGroupsByCreationDay_def findMessages_def setOwnership_def groupBy_def
      firstDayMessage_def secondDayMessage_def samplePage_eval sampleChat_def
      dayOf_def msPerDay_def Let_def format_def MomentOfDate_def MomentNow_def)

end
